theory Spec2Isabelle
  imports Main "HOL-Library.AList"
begin

section \<open>Data model of the plugin host\<close>

text \<open>
  The development follows \<^verbatim>\<open>src/vs/workbench/node/pluginHostMain.ts\<close>.
  A plugin description carries the three fields the host reads: its \<^verbatim>\<open>id\<close>, the
  folder it was loaded from, and its activation events, which may be absent
  (the host tests \<^verbatim>\<open>if (!activationEvents)\<close>).
\<close>

record IPluginDescription =
  id' :: string
  extensionFolderPath :: string
  activationEvents :: "string list option"

text \<open>
  A promise that has settled is a sum: \<open>Inl\<close> a rejection with its reason, \<open>Inr\<close> a
  fulfilment with its value. The reason of a rejected \<^verbatim>\<open>TPromise.join\<close> is the array of
  the reasons of its rejected members, with holes at the fulfilled ones; an exception
  thrown inside a \<^verbatim>\<open>then\<close> callback rejects the promise with the exception.
\<close>

datatype reason = Reason string | Joined "reason option list" | TypeError string

type_synonym 'a outcome = "reason + 'a"

datatype Severity = Info | Warning | Error

datatype message_text = Text string | Failure reason

datatype IMessage = Message Severity string message_text

type_synonym collector = "IMessage list"

definition collector_error :: "string \<Rightarrow> reason \<Rightarrow> collector \<Rightarrow> collector" where
  \<comment> \<open>Modelled from the spec: \<^verbatim>\<open>PluginsMessageCollector\<close> is imported from
      \<^verbatim>\<open>pluginsRegistry\<close>; it accepts info, warning and error entries tagged with a
      source path and a message, kept in the order they arrive.\<close>
  "collector_error src err c = c @ [Message Error src (Failure err)]"

definition collector_warn :: "string \<Rightarrow> string \<Rightarrow> collector \<Rightarrow> collector" where
  \<comment> \<open>Modelled from the spec: see \<open>collector_error\<close>.\<close>
  "collector_warn src txt c = c @ [Message Warning src (Text txt)]"

definition collector_info :: "string \<Rightarrow> string \<Rightarrow> collector \<Rightarrow> collector" where
  \<comment> \<open>Modelled from the spec: see \<open>collector_error\<close>.\<close>
  "collector_info src txt c = c @ [Message Info src (Text txt)]"

subsection \<open>JavaScript objects used as dictionaries\<close>

text \<open>
  \<^verbatim>\<open>resultingPluginsMap\<close> and \<^verbatim>\<open>desiredFilesMap\<close> are object literals \<^verbatim>\<open>{}\<close> keyed by
  strings. An object is the list of its own properties in the order they were created.
  \<^item> An assignment \<^verbatim>\<open>m[k] = v\<close> replaces the value of an own property \<open>k\<close> in place and
    appends a new property otherwise. The key \<^verbatim>\<open>__proto__\<close> is the exception: the
    assignment runs the prototype setter of \<^verbatim>\<open>Object.prototype\<close>, which creates no own
    property (it replaces the prototype when \<open>v\<close> is an object and does nothing when \<open>v\<close>
    is \<^verbatim>\<open>true\<close>).
  \<^item> \<^verbatim>\<open>m.hasOwnProperty(k)\<close> first looks the name \<^verbatim>\<open>hasOwnProperty\<close> up on \<open>m\<close>. When \<open>m\<close>
    has an own property of that name, its value is a plugin description and not a
    function, and the call throws a \<^verbatim>\<open>TypeError\<close>. Otherwise the method of
    \<^verbatim>\<open>Object.prototype\<close> answers whether \<open>k\<close> is an own property. (A description that has
    become the prototype carries the fields of \<^verbatim>\<open>IPluginDescription\<close> only, so the method
    is still found behind it.)
  \<^item> \<^verbatim>\<open>Object.keys(m)\<close> lists the own properties: first the keys that are array
    indices (canonical decimal numerals below \<open>2\<^sup>3\<^sup>2 - 1\<close>), in ascending numeric
    order, then the other keys in the order they were created.
\<close>

type_synonym 'v js_object = "(string \<times> 'v) list"

definition obj_get :: "'v js_object \<Rightarrow> string \<Rightarrow> 'v option" where
  \<comment> \<open>the value of an own property\<close>
  "obj_get m k = map_of m k"

definition obj_set :: "string \<Rightarrow> 'v \<Rightarrow> 'v js_object \<Rightarrow> 'v js_object" where
  "obj_set k v m = (if k = ''__proto__'' then m else AList.update k v m)"

definition hasOwnProperty :: "'v js_object \<Rightarrow> string \<Rightarrow> bool outcome" where
  "hasOwnProperty m k =
     (case obj_get m ''hasOwnProperty'' of
        Some v \<Rightarrow> Inl (TypeError ''hasOwnProperty is not a function'')
      | None \<Rightarrow> Inr (obj_get m k \<noteq> None))"

definition is_digit :: "char \<Rightarrow> bool" where
  "is_digit c = (c \<in> set ''0123456789'')"

definition digit_value :: "char \<Rightarrow> nat" where
  "digit_value c = length (takeWhile (\<lambda>d. d \<noteq> c) ''0123456789'')"

definition decimal :: "string \<Rightarrow> nat" where
  "decimal k = fold (\<lambda>c n. 10 * n + digit_value c) k 0"

definition array_index :: "string \<Rightarrow> nat option" where
  "array_index k =
     (if k \<noteq> [] \<and> list_all is_digit k \<and> (k = ''0'' \<or> hd k \<noteq> CHR ''0'')
         \<and> decimal k < 4294967295
      then Some (decimal k) else None)"

definition index_of :: "string \<Rightarrow> nat" where
  "index_of k = (case array_index k of Some n \<Rightarrow> n | None \<Rightarrow> 0)"

definition object_keys :: "'v js_object \<Rightarrow> string list" where
  "object_keys m =
     (let keys = map fst m
      in sort_key index_of (filter (\<lambda>k. array_index k \<noteq> None) keys)
           @ filter (\<lambda>k. array_index k = None) keys)"

definition object_values :: "'v js_object \<Rightarrow> 'v list" where
  \<comment> \<open>\<^verbatim>\<open>Object.keys(m).map(name => m[name])\<close>\<close>
  "object_values m = List.map_filter (obj_get m) (object_keys m)"

section \<open>The descriptor merger: \<^verbatim>\<open>PluginHostMain.scanPlugins\<close>\<close>

definition overwriting :: "IPluginDescription \<Rightarrow> IPluginDescription \<Rightarrow> string" where
  "overwriting old new =
     ''Overwriting extension '' @ extensionFolderPath old @ '' with '' @ extensionFolderPath new"

definition loading :: "IPluginDescription \<Rightarrow> string" where
  "loading p = ''Loading development extension at '' @ extensionFolderPath p"

text \<open>
  The three \<^verbatim>\<open>forEach\<close> bodies work on the map and the collector. A body that throws
  leaves the map behind and keeps the collector as it was at the throw; \<^verbatim>\<open>forEach\<close> stops
  at the first body that throws.
\<close>

type_synonym merge_state = "IPluginDescription js_object \<times> collector"

type_synonym merge_step = "IPluginDescription js_object outcome \<times> collector"

fun forEach ::
  "(IPluginDescription \<Rightarrow> merge_state \<Rightarrow> merge_step) \<Rightarrow> IPluginDescription list
     \<Rightarrow> merge_state \<Rightarrow> merge_step" where
  "forEach body [] (m, c) = (Inr m, c)"
| "forEach body (p # ps) (m, c) =
     (case body p (m, c) of
        (Inl err, c') \<Rightarrow> (Inl err, c')
      | (Inr m', c') \<Rightarrow> forEach body ps (m', c'))"

definition warn_if_present ::
  "IPluginDescription js_object \<Rightarrow> IPluginDescription \<Rightarrow> collector \<Rightarrow> collector outcome" where
  \<comment> \<open>\<^verbatim>\<open>if (resultingPluginsMap.hasOwnProperty(p.id)) { collector.warn(...) }\<close>\<close>
  "warn_if_present m p c =
     (case hasOwnProperty m (id' p) of
        Inl err \<Rightarrow> Inl err
      | Inr present \<Rightarrow>
          (if present
           then (case obj_get m (id' p) of
                   Some old \<Rightarrow> Inr (collector_warn [] (overwriting old p) c)
                 | None \<Rightarrow> Inr c)
           else Inr c))"

definition add_builtin :: "IPluginDescription \<Rightarrow> merge_state \<Rightarrow> merge_step" where
  "add_builtin p = (\<lambda>(m, c). (Inr (obj_set (id' p) p m), c))"

definition add_user :: "IPluginDescription \<Rightarrow> merge_state \<Rightarrow> merge_step" where
  "add_user p = (\<lambda>(m, c).
     (case warn_if_present m p c of
        Inl err \<Rightarrow> (Inl err, c)
      | Inr c' \<Rightarrow> (Inr (obj_set (id' p) p m), c')))"

definition add_dev :: "IPluginDescription \<Rightarrow> merge_state \<Rightarrow> merge_step" where
  "add_dev p = (\<lambda>(m, c).
     (let c1 = collector_info [] (loading p) c
      in case warn_if_present m p c1 of
           Inl err \<Rightarrow> (Inl err, c1)
         | Inr c' \<Rightarrow> (Inr (obj_set (id' p) p m), c')))"

definition mergePlugins ::
  "collector \<Rightarrow> IPluginDescription list \<Rightarrow> IPluginDescription list \<Rightarrow> IPluginDescription list
     \<Rightarrow> (IPluginDescription list) outcome \<times> collector" where
  \<comment> \<open>the callback given to \<^verbatim>\<open>TPromise.join([...]).then\<close>\<close>
  "mergePlugins collector builtinPlugins userPlugins extensionDevPlugins =
     (case forEach add_builtin builtinPlugins ([], collector) of
        (Inl err, c0) \<Rightarrow> (Inl err, c0)
      | (Inr m0, c0) \<Rightarrow>
          (case forEach add_user userPlugins (m0, c0) of
             (Inl err, c1) \<Rightarrow> (Inl err, c1)
           | (Inr m1, c1) \<Rightarrow>
               (case forEach add_dev extensionDevPlugins (m1, c1) of
                  (Inl err, c2) \<Rightarrow> (Inl err, c2)
                | (Inr m2, c2) \<Rightarrow> (Inr (object_values m2), c2))))"

text \<open>
  \<^verbatim>\<open>TPromise.join\<close> waits for every member; it is fulfilled with the array of the values
  when all members are fulfilled and rejected when some member is rejected.
\<close>

definition join :: "'a outcome list \<Rightarrow> ('a list) outcome" where
  \<comment> \<open>Modelled from the spec: \<^verbatim>\<open>TPromise.join\<close> is imported from \<^verbatim>\<open>winjs.base\<close>; the
      merger "joins" on all three scans, awaiting all three results and never applying
      only some of the sources.\<close>
  "join ps =
     (if list_ex isl ps
      then Inl (Joined (map (\<lambda>p. case p of Inl e \<Rightarrow> Some e | Inr _ \<Rightarrow> None) ps))
      else Inr (List.map_filter (\<lambda>p. case p of Inl _ \<Rightarrow> None | Inr v \<Rightarrow> Some v) ps))"

text \<open>
  A path of the environment may be missing or empty; JavaScript treats both as false.
\<close>

definition truthy :: "string option \<Rightarrow> bool" where
  "truthy p = (case p of None \<Rightarrow> False | Some s \<Rightarrow> s \<noteq> [])"

text \<open>
  \<^verbatim>\<open>PluginScanner\<close> is an external collaborator: the settled results of its three scans
  are parameters, and what the scanners themselves wrote to the collector is part of
  the collector the merge starts from. The promise of \<^verbatim>\<open>scanPlugins\<close> is rejected when the
  join is rejected or when the merge throws.
\<close>

definition scanPlugins ::
  "collector \<Rightarrow> (IPluginDescription list) outcome \<Rightarrow> (IPluginDescription list) outcome
     \<Rightarrow> (IPluginDescription list) outcome \<Rightarrow> string option \<Rightarrow> string option
     \<Rightarrow> (IPluginDescription list) outcome \<times> collector" where
  "scanPlugins collector builtinScan userScan devScan userInstallPath pluginDevelopmentPath =
     (let builtinPlugins = builtinScan;
          userPlugins = (if truthy userInstallPath then userScan else Inr []);
          developedPlugins = (if truthy pluginDevelopmentPath then devScan else Inr [])
      in case join [builtinPlugins, userPlugins, developedPlugins] of
           Inl err \<Rightarrow> (Inl err, collector)
         | Inr r \<Rightarrow> mergePlugins collector (r ! 0) (r ! 1) (r ! 2))"

section \<open>The activation trigger resolver\<close>

record URI =
  fsPath :: string

record workspace =
  resource :: "URI option"

text \<open>
  What the host does to its surroundings while it activates plugins: the events handed
  to \<^verbatim>\<open>pluginService.activateByEvent\<close>, the arguments of every call of
  \<^verbatim>\<open>pfs.fileExistsWithResult\<close>, and the reasons written with \<^verbatim>\<open>console.error\<close>.
\<close>

record effects =
  dispatched :: "string list"
  probes :: "(string \<times> string) list"
  console_errors :: "reason list"

definition no_effects :: effects where
  "no_effects = \<lparr>dispatched = [], probes = [], console_errors = []\<rparr>"

text \<open>
  \<^verbatim>\<open>activateByEvent(ev).then(null, err => console.error(err))\<close>: the event is dispatched, and
  a rejection (\<open>Some err\<close>) is logged. Nothing is returned to the caller.
\<close>

definition activate_and_log :: "(string \<Rightarrow> reason option) \<Rightarrow> string \<Rightarrow> effects \<Rightarrow> effects" where
  "activate_and_log activateByEvent ev fx =
     (let fx' = fx\<lparr>dispatched := dispatched fx @ [ev]\<rparr>
      in case activateByEvent ev of
           None \<Rightarrow> fx'
         | Some err \<Rightarrow> fx'\<lparr>console_errors := console_errors fx' @ [err]\<rparr>)"

definition workspaceContains :: string where
  "workspaceContains = ''workspaceContains:''"

definition collect_event :: "string \<Rightarrow> bool js_object \<Rightarrow> bool js_object" where
  \<comment> \<open>the body of the \<^verbatim>\<open>for\<close> loop: the regular expression \<^verbatim>\<open>/^workspaceContains:/\<close> tests
      for the prefix, \<^verbatim>\<open>substr\<close> drops it\<close>
  "collect_event ev desiredFilesMap =
     (if take (length workspaceContains) ev = workspaceContains
      then obj_set (drop (length workspaceContains) ev) True desiredFilesMap
      else desiredFilesMap)"

definition collect_desc :: "IPluginDescription \<Rightarrow> bool js_object \<Rightarrow> bool js_object" where
  "collect_desc desc desiredFilesMap =
     (case activationEvents desc of
        None \<Rightarrow> desiredFilesMap
      | Some evs \<Rightarrow> fold collect_event evs desiredFilesMap)"

definition fileExistsWithResult :: "(string \<Rightarrow> bool) \<Rightarrow> string \<Rightarrow> 'a \<Rightarrow> 'a option" where
  \<comment> \<open>Modelled from the spec: \<^verbatim>\<open>pfs.fileExistsWithResult\<close> is imported from \<^verbatim>\<open>pfs\<close>; the
      existence probe never fails, and the promise carries the given result when the
      path exists and nothing when it does not.\<close>
  "fileExistsWithResult fileExists path successResult =
     (if fileExists path then Some successResult else None)"

definition dispatch_existing ::
  "(string \<Rightarrow> reason option) \<Rightarrow> string option \<Rightarrow> effects \<Rightarrow> effects" where
  \<comment> \<open>the body of \<^verbatim>\<open>fileNames.forEach\<close>; \<^verbatim>\<open>!existingFileName\<close> holds of \<^verbatim>\<open>null\<close> and of
      the empty string\<close>
  "dispatch_existing activateByEvent existingFileName fx =
     (case existingFileName of
        None \<Rightarrow> fx
      | Some n \<Rightarrow>
          (if n = [] then fx
           else activate_and_log activateByEvent (workspaceContains @ n) fx))"

definition desiredFiles :: "IPluginDescription list \<Rightarrow> string list" where
  "desiredFiles descs = object_keys (fold collect_desc descs [])"

definition handleWorkspaceContainsEagerPlugins ::
  "(string \<Rightarrow> reason option) \<Rightarrow> (string \<Rightarrow> bool) \<Rightarrow> (string \<Rightarrow> string \<Rightarrow> string)
     \<Rightarrow> workspace option \<Rightarrow> IPluginDescription list \<Rightarrow> effects \<Rightarrow> unit outcome \<times> effects" where
  \<comment> \<open>\<open>paths_join\<close> stands for \<^verbatim>\<open>paths.join\<close>, \<open>fileExists\<close> for the file system, and
      \<open>allPluginDescriptions\<close> for \<^verbatim>\<open>PluginsRegistry.getAllPluginDescriptions()\<close>\<close>
  "handleWorkspaceContainsEagerPlugins activateByEvent fileExists paths_join ws
       allPluginDescriptions fx =
     (case ws of
        None \<Rightarrow> (Inr (), fx)
      | Some w \<Rightarrow>
          (case resource w of
             None \<Rightarrow> (Inr (), fx)
           | Some r \<Rightarrow>
               (let folderPath = fsPath r;
                    names = desiredFiles allPluginDescriptions;
                    calls = map (\<lambda>fileName. (paths_join folderPath fileName, fileName)) names;
                    fx1 = fx\<lparr>probes := probes fx @ calls\<rparr>;
                    fileNames = map (\<lambda>(path, fileName).
                                  fileExistsWithResult fileExists path fileName) calls
                in (Inr (), fold (dispatch_existing activateByEvent) fileNames fx1))))"

definition handleEagerPlugins ::
  "(string \<Rightarrow> reason option) \<Rightarrow> (string \<Rightarrow> bool) \<Rightarrow> (string \<Rightarrow> string \<Rightarrow> string)
     \<Rightarrow> workspace option \<Rightarrow> IPluginDescription list \<Rightarrow> effects \<Rightarrow> unit outcome \<times> effects" where
  "handleEagerPlugins activateByEvent fileExists paths_join ws allPluginDescriptions fx =
     handleWorkspaceContainsEagerPlugins activateByEvent fileExists paths_join ws
       allPluginDescriptions (activate_and_log activateByEvent ''*'' fx)"

section \<open>Startup: \<^verbatim>\<open>PluginHostMain.readPlugins\<close>\<close>

record environment =
  userPluginsHome :: "string option"
  pluginDevelopmentPath :: "string option"
  pluginTestsPath :: "string option"

definition registerPlugins :: "IPluginDescription list \<Rightarrow> IPluginDescription list \<Rightarrow> IPluginDescription list" where
  \<comment> \<open>Modelled from the spec: \<^verbatim>\<open>PluginsRegistry\<close> is imported from \<^verbatim>\<open>pluginsRegistry\<close>; the
      registry is built once from the merged descriptors and only read afterwards.\<close>
  "registerPlugins extensions registry = registry @ extensions"

definition getAllPluginDescriptions :: "IPluginDescription list \<Rightarrow> IPluginDescription list" where
  \<comment> \<open>Modelled from the spec: see \<open>registerPlugins\<close>.\<close>
  "getAllPluginDescriptions registry = registry"

definition handlePluginTests :: "environment \<Rightarrow> unit outcome \<Rightarrow> unit outcome" where
  \<comment> \<open>the test runner is loaded from a path at run time: how its branch settles is the
      parameter \<open>testRun\<close>\<close>
  "handlePluginTests env testRun =
     (if \<not> truthy (pluginTestsPath env) \<or> \<not> truthy (pluginDevelopmentPath env)
      then Inr ()
      else testRun)"

record startup =
  registered :: "IPluginDescription list"
  registrationDone :: collector
  effects :: effects
  settled :: "unit outcome"

text \<open>
  The chain of \<^verbatim>\<open>readPlugins\<close>: the rejection handler after \<^verbatim>\<open>scanPlugins\<close> records an error
  and continues with the empty array; registration, the eager activations and the plugin
  tests follow.
\<close>

definition readPlugins ::
  "environment \<Rightarrow> collector \<Rightarrow> (IPluginDescription list) outcome
     \<Rightarrow> (IPluginDescription list) outcome \<Rightarrow> (IPluginDescription list) outcome
     \<Rightarrow> (string \<Rightarrow> reason option) \<Rightarrow> (string \<Rightarrow> bool) \<Rightarrow> (string \<Rightarrow> string \<Rightarrow> string)
     \<Rightarrow> workspace option \<Rightarrow> unit outcome \<Rightarrow> startup" where
  "readPlugins env scanMessages builtinScan userScan devScan activateByEvent fileExists
       paths_join ws testRun =
     (case scanPlugins scanMessages builtinScan userScan devScan
             (userPluginsHome env) (pluginDevelopmentPath env) of
        (scanned, collector) \<Rightarrow>
          (case (case scanned of
                   Inl err \<Rightarrow> ([], collector_error [] err collector)
                 | Inr plugins \<Rightarrow> (plugins, collector)) of
             (extensions, collector') \<Rightarrow>
               (let registry = registerPlugins extensions []
                in case handleEagerPlugins activateByEvent fileExists paths_join ws
                          (getAllPluginDescriptions registry) no_effects of
                     (eager, fx) \<Rightarrow>
                       \<lparr>registered = registry,
                        registrationDone = collector',
                        effects = fx,
                        settled = (case eager of
                                     Inl err \<Rightarrow> Inl err
                                   | Inr _ \<Rightarrow> handlePluginTests env testRun)\<rparr>)))"

section \<open>The guard on \<^verbatim>\<open>process.exit\<close>\<close>

text \<open>
  \<^verbatim>\<open>process.exit\<close> is a slot of the global \<^verbatim>\<open>process\<close> object holding a function: the
  native one, which ends the process with the given code, or the replacement the module
  installs, which writes the stack of a fresh \<^verbatim>\<open>Error\<close> to \<^verbatim>\<open>console.warn\<close>. A process that
  has exited runs nothing any more.
\<close>

datatype exit_function = NativeExit | PatchedExit

datatype warning = Stack string

record process =
  process_exit :: exit_function
  exited :: "int option option"
  console_warnings :: "warning list"

record pluginHostModule =
  nativeExit :: exit_function

definition prevented :: string where
  "prevented = ''An extension called process.exit() and this was prevented.''"

definition call_exit :: "exit_function \<Rightarrow> int option \<Rightarrow> process \<Rightarrow> process" where
  "call_exit f code p =
     (if exited p \<noteq> None then p
      else case f of
             NativeExit \<Rightarrow> p\<lparr>exited := Some code\<rparr>
           | PatchedExit \<Rightarrow> p\<lparr>console_warnings := console_warnings p @ [Stack prevented]\<rparr>)"

definition load_module :: "process \<Rightarrow> pluginHostModule \<times> process" where
  \<comment> \<open>\<^verbatim>\<open>const nativeExit = process.exit.bind(process); process.exit = function() {...}\<close>\<close>
  "load_module p = (\<lparr>nativeExit = process_exit p\<rparr>, p\<lparr>process_exit := PatchedExit\<rparr>)"

definition exit :: "pluginHostModule \<Rightarrow> int option \<Rightarrow> process \<Rightarrow> process" where
  \<comment> \<open>the exported \<^verbatim>\<open>exit(code)\<close>\<close>
  "exit m code p = call_exit (nativeExit m) code p"

text \<open>The calls the rest of the program can make: \<^verbatim>\<open>process.exit(code)\<close> and \<^verbatim>\<open>exit(code)\<close>.\<close>

datatype call = ProcessExit "int option" | ExportedExit "int option"

fun run_call :: "pluginHostModule \<Rightarrow> call \<Rightarrow> process \<Rightarrow> process" where
  "run_call m (ProcessExit code) p = call_exit (process_exit p) code p"
| "run_call m (ExportedExit code) p = exit m code p"

section \<open>Notions used to state the properties\<close>

text \<open>
  Ids and file names that are ordinary property names: neither \<^verbatim>\<open>__proto__\<close>, which an
  object never holds as an own property, nor \<^verbatim>\<open>hasOwnProperty\<close>, which hides the method
  the merge calls.
\<close>

definition ordinary_ids :: "IPluginDescription list \<Rightarrow> bool" where
  "ordinary_ids ps =
     list_all (\<lambda>p. id' p \<noteq> ''__proto__'' \<and> id' p \<noteq> ''hasOwnProperty'') ps"

text \<open>The map after the descriptors \<open>ps\<close> have been assigned, in order, into \<open>m\<close>.\<close>

definition insert_all ::
  "IPluginDescription list \<Rightarrow> IPluginDescription js_object \<Rightarrow> IPluginDescription js_object" where
  "insert_all ps m = fold (\<lambda>p. obj_set (id' p) p) ps m"




text \<open>The last descriptor of a list that carries the id \<open>i\<close>.\<close>

fun last_with :: "string \<Rightarrow> IPluginDescription list \<Rightarrow> IPluginDescription option" where
  "last_with i [] = None"
| "last_with i (p # ps) =
     (case last_with i ps of
        Some q \<Rightarrow> Some q
      | None \<Rightarrow> (if id' p = i then Some p else None))"





text \<open>Some descriptor declares the activation event \<^verbatim>\<open>workspaceContains:<n>\<close>.\<close>

definition declares :: "IPluginDescription list \<Rightarrow> string \<Rightarrow> bool" where
  "declares descs n =
     (\<exists>desc \<in> set descs. \<exists>evs. activationEvents desc = Some evs \<and> workspaceContains @ n \<in> set evs)"

definition events_of :: "string option list \<Rightarrow> string list" where
  "events_of rs = concat (map (\<lambda>r. case r of None \<Rightarrow> [] | Some n \<Rightarrow>
                                       if n = [] then [] else [workspaceContains @ n]) rs)"

definition no_workspace_root :: "workspace option \<Rightarrow> bool" where
  \<comment> \<open>\<^verbatim>\<open>!workspace || !workspace.resource\<close>\<close>
  "no_workspace_root ws = (case ws of None \<Rightarrow> True | Some w \<Rightarrow> resource w = None)"

definition rejected :: "bool \<Rightarrow> 'a outcome \<Rightarrow> bool" where
  \<comment> \<open>a scan that was started (\<open>enabled\<close>) and whose promise was rejected\<close>
  "rejected enabled scan = (enabled \<and> isl scan)"

text \<open>
  The declared names that are not empty and exist under the workspace root, and the events
  of the workspace phase, whatever the workspace is.
\<close>

definition existing :: "(string \<Rightarrow> bool) \<Rightarrow> (string \<Rightarrow> string \<Rightarrow> string) \<Rightarrow> string
                          \<Rightarrow> IPluginDescription list \<Rightarrow> string list" where
  "existing ex pj root descs = filter (\<lambda>n. ex (pj root n) \<and> n \<noteq> []) (desiredFiles descs)"

definition workspace_events ::
  "(string \<Rightarrow> bool) \<Rightarrow> (string \<Rightarrow> string \<Rightarrow> string) \<Rightarrow> workspace option
     \<Rightarrow> IPluginDescription list \<Rightarrow> string list" where
  "workspace_events ex pj ws descs =
     (case ws of
        None \<Rightarrow> []
      | Some w \<Rightarrow> (case resource w of
                    None \<Rightarrow> []
                  | Some r \<Rightarrow> map ((@) workspaceContains) (existing ex pj (fsPath r) descs)))"

subsection \<open>Example inputs\<close>

definition builtin_A :: IPluginDescription where
  "builtin_A = \<lparr>id' = ''A'', extensionFolderPath = ''/builtin/A'',
                 activationEvents = Some [''workspaceContains:x'']\<rparr>"




definition dev_A :: IPluginDescription where
  "dev_A = \<lparr>id' = ''A'', extensionFolderPath = ''/dev/A'', activationEvents = Some [''*'']\<rparr>"





definition empty_name :: IPluginDescription where
  "empty_name = \<lparr>id' = ''E'', extensionFolderPath = ''/user/E'',
                  activationEvents = Some [''workspaceContains:'']\<rparr>"

definition proto_name :: IPluginDescription where
  "proto_name = \<lparr>id' = ''N'', extensionFolderPath = ''/user/N'',
                  activationEvents = Some [''workspaceContains:__proto__'']\<rparr>"

definition pkg_json :: IPluginDescription where
  "pkg_json = \<lparr>id' = ''P'', extensionFolderPath = ''/user/P'',
                activationEvents = Some [''workspaceContains:pkg.json'', ''onLanguage:go'']\<rparr>"

definition pkg_json2 :: IPluginDescription where
  "pkg_json2 = \<lparr>id' = ''Q'', extensionFolderPath = ''/user/Q'',
                 activationEvents = Some [''workspaceContains:pkg.json'',
                                          ''workspaceContains:Cargo.toml'']\<rparr>"

definition ws_root :: workspace where
  "ws_root = \<lparr>resource = Some \<lparr>fsPath = ''/ws''\<rparr>\<rparr>"

definition slash_join :: "string \<Rightarrow> string \<Rightarrow> string" where
  "slash_join dir name = (if name = [] then dir else dir @ ''/'' @ name)"

definition all_paths :: "environment" where
  "all_paths = \<lparr>userPluginsHome = Some ''/user'', pluginDevelopmentPath = Some ''/dev'',
                 pluginTestsPath = None\<rparr>"

definition fresh_process :: process where
  "fresh_process = \<lparr>process_exit = NativeExit, exited = None, console_warnings = []\<rparr>"

text \<open>An activation function that rejects the universal event and fulfils the others.\<close>

definition star_fails :: "string \<Rightarrow> reason option" where
  "star_fails ev = (if ev = ''*'' then Some (Reason ''activation failed'') else None)"

section \<open>Properties of the object model\<close>

lemma set_object_keys: "set (object_keys m) = fst ` set m"
  by (auto simp: object_keys_def Let_def)

lemma distinct_object_keys: "distinct (map fst m) \<Longrightarrow> distinct (object_keys m)"
  by (auto simp: object_keys_def Let_def)

lemma length_object_keys: "length (object_keys m) = length m"
proof -
  have "length (filter (\<lambda>k. array_index k \<noteq> None) (map fst m))
          + length (filter (\<lambda>k. \<not> array_index k \<noteq> None) (map fst m)) = length (map fst m)"
    by (rule sum_length_filter_compl)
  then show ?thesis
    by (simp add: object_keys_def Let_def)
qed

lemma keys_obj_set:
  "fst ` set (obj_set k v m) = fst ` set m \<union> (if k = ''__proto__'' then {} else {k})"
  by (auto simp: obj_set_def dom_update)

lemma distinct_obj_set: "distinct (map fst m) \<Longrightarrow> distinct (map fst (obj_set k v m))"
  by (simp add: obj_set_def distinct_update)



lemma obj_get_empty [simp]: "obj_get [] k = None"
  by (simp add: obj_get_def)




section \<open>Properties of the merge\<close>

lemma insert_all_Nil [simp]: "insert_all [] m = m"
  by (simp add: insert_all_def)

lemma insert_all_Cons [simp]: "insert_all (p # ps) m = insert_all ps (obj_set (id' p) p m)"
  by (simp add: insert_all_def)


lemma ordinary_ids_append [simp]:
  "ordinary_ids (ps @ qs) \<longleftrightarrow> ordinary_ids ps \<and> ordinary_ids qs"
  by (simp add: ordinary_ids_def)















lemma last_with_None: "last_with i ps = None \<longleftrightarrow> i \<notin> id' ` set ps"
  by (induction ps) (auto split: option.splits)
























section \<open>Properties of the trigger resolver\<close>

lemma prefix_split:
  "take (length w) ev = w \<and> drop (length w) ev = n \<longleftrightarrow> ev = w @ n"
  by (metis append_eq_conv_conj append_take_drop_id)

lemma declared_singleton:
  assumes "take (length w) ev = w"
  shows "{n. ev = w @ n \<and> n \<noteq> x} = (if drop (length w) ev = x then {} else {drop (length w) ev})"
proof -
  have ev: "ev = w @ drop (length w) ev"
    using assms prefix_split [of w ev "drop (length w) ev"] by blast
  have "\<And>n. ev = w @ n \<longleftrightarrow> n = drop (length w) ev"
    using ev by (metis same_append_eq)
  then show ?thesis by auto
qed

lemma declared_empty:
  assumes "take (length w) ev \<noteq> w"
  shows "{n. ev = w @ n \<and> n \<noteq> x} = {}"
  using assms prefix_split [of w ev] by blast

lemma keys_collect_event:
  "fst ` set (collect_event ev m) =
     fst ` set m \<union> {n. ev = workspaceContains @ n \<and> n \<noteq> ''__proto__''}"
proof (cases "take (length workspaceContains) ev = workspaceContains")
  case True
  show ?thesis
    by (simp only: collect_event_def True keys_obj_set declared_singleton [OF True] if_True
                   simp_thms)
next
  case False
  show ?thesis
    by (simp only: collect_event_def False declared_empty [OF False] if_False Un_empty_right)
qed

lemma distinct_collect_event:
  "distinct (map fst m) \<Longrightarrow> distinct (map fst (collect_event ev m))"
  by (simp add: collect_event_def distinct_obj_set)

lemma keys_fold_collect_event:
  "fst ` set (fold collect_event evs m) =
     fst ` set m \<union> {n. workspaceContains @ n \<in> set evs \<and> n \<noteq> ''__proto__''}"
  by (induction evs arbitrary: m) (auto simp: keys_collect_event)

lemma distinct_fold_collect_event:
  "distinct (map fst m) \<Longrightarrow> distinct (map fst (fold collect_event evs m))"
  by (induction evs arbitrary: m) (simp_all add: distinct_collect_event)

lemma keys_collect_desc:
  "fst ` set (collect_desc desc m) =
     fst ` set m \<union> {n. (\<exists>evs. activationEvents desc = Some evs \<and> workspaceContains @ n \<in> set evs)
                            \<and> n \<noteq> ''__proto__''}"
  by (cases "activationEvents desc") (simp_all add: collect_desc_def keys_fold_collect_event)

lemma distinct_collect_desc:
  "distinct (map fst m) \<Longrightarrow> distinct (map fst (collect_desc desc m))"
  by (cases "activationEvents desc") (simp_all add: collect_desc_def distinct_fold_collect_event)

lemma keys_fold_collect_desc:
  "fst ` set (fold collect_desc descs m) =
     fst ` set m \<union> {n. declares descs n \<and> n \<noteq> ''__proto__''}"
  by (induction descs arbitrary: m) (auto simp: keys_collect_desc declares_def)

lemma distinct_fold_collect_desc:
  "distinct (map fst m) \<Longrightarrow> distinct (map fst (fold collect_desc descs m))"
  by (induction descs arbitrary: m) (simp_all add: distinct_collect_desc)

lemma set_desiredFiles:
  "set (desiredFiles descs) = {n. declares descs n \<and> n \<noteq> ''__proto__''}"
  using keys_fold_collect_desc [of descs "[]"] by (simp add: desiredFiles_def set_object_keys)

lemma distinct_desiredFiles: "distinct (desiredFiles descs)"
  using distinct_fold_collect_desc [of "[]" descs]
  by (simp add: desiredFiles_def distinct_object_keys)

lemma activate_and_log_fields:
  "dispatched (activate_and_log act ev fx) = dispatched fx @ [ev]"
  "probes (activate_and_log act ev fx) = probes fx"
  "console_errors (activate_and_log act ev fx) = console_errors fx @ List.map_filter act [ev]"
  by (simp_all add: activate_and_log_def Let_def map_filter_simps split: option.splits)

lemma dispatch_existing_fields:
  "dispatched (dispatch_existing act r fx) = dispatched fx @ events_of [r]"
  "probes (dispatch_existing act r fx) = probes fx"
  "console_errors (dispatch_existing act r fx) = console_errors fx @ List.map_filter act (events_of [r])"
  by (simp_all add: dispatch_existing_def events_of_def activate_and_log_fields map_filter_simps
               split: option.splits)

lemma events_of_Cons: "events_of (r # rs) = events_of [r] @ events_of rs"
  by (simp add: events_of_def)

lemma map_filter_append: "List.map_filter f (xs @ ys) = List.map_filter f xs @ List.map_filter f ys"
  by (simp add: map_filter_def)

lemma fold_dispatch_existing:
  "dispatched (fold (dispatch_existing act) rs fx) = dispatched fx @ events_of rs
   \<and> probes (fold (dispatch_existing act) rs fx) = probes fx
   \<and> console_errors (fold (dispatch_existing act) rs fx)
       = console_errors fx @ List.map_filter act (events_of rs)"
proof (induction rs arbitrary: fx)
  case Nil
  show ?case by (simp add: events_of_def map_filter_simps)
next
  case (Cons r rs)
  show ?case
    by (simp add: Cons.IH dispatch_existing_fields events_of_Cons [of r rs] map_filter_append)
qed

lemma events_of_probe_results:
  "events_of (map (\<lambda>(path, fileName). fileExistsWithResult ex path fileName)
                (map (\<lambda>fileName. (pj root fileName, fileName)) names))
     = map ((@) workspaceContains) (filter (\<lambda>n. ex (pj root n) \<and> n \<noteq> []) names)"
  by (induction names) (simp_all add: events_of_def fileExistsWithResult_def)

lemma handleWorkspaceContains_rooted:
  assumes "resource w = Some r"
  shows "handleWorkspaceContainsEagerPlugins act ex pj (Some w) descs fx =
           (Inr (), fold (dispatch_existing act)
              (map (\<lambda>(path, fileName). fileExistsWithResult ex path fileName)
                 (map (\<lambda>fileName. (pj (fsPath r) fileName, fileName)) (desiredFiles descs)))
              (fx\<lparr>probes := probes fx
                    @ map (\<lambda>fileName. (pj (fsPath r) fileName, fileName)) (desiredFiles descs)\<rparr>))"
  using assms by (simp add: handleWorkspaceContainsEagerPlugins_def Let_def)

lemma handleWorkspaceContains_effects:
  assumes "resource w = Some r"
  shows "dispatched (snd (handleWorkspaceContainsEagerPlugins act ex pj (Some w) descs fx))
           = dispatched fx @ map ((@) workspaceContains) (existing ex pj (fsPath r) descs)"
    and "probes (snd (handleWorkspaceContainsEagerPlugins act ex pj (Some w) descs fx))
           = probes fx @ map (\<lambda>n. (pj (fsPath r) n, n)) (desiredFiles descs)"
    and "console_errors (snd (handleWorkspaceContainsEagerPlugins act ex pj (Some w) descs fx))
           = console_errors fx
               @ List.map_filter act (map ((@) workspaceContains) (existing ex pj (fsPath r) descs))"
    and "fst (handleWorkspaceContainsEagerPlugins act ex pj (Some w) descs fx) = Inr ()"
  by (simp_all add: handleWorkspaceContains_rooted [OF assms] fold_dispatch_existing
                    events_of_probe_results existing_def del: map_map)

lemma handleWorkspaceContains_rootless:
  assumes "no_workspace_root ws"
  shows "handleWorkspaceContainsEagerPlugins act ex pj ws descs fx = (Inr (), fx)"
  using assms
  by (simp add: handleWorkspaceContainsEagerPlugins_def no_workspace_root_def split: option.splits)

lemma root_cases:
  obtains "no_workspace_root ws" | w r where "ws = Some w" "resource w = Some r"
  by (cases ws) (auto simp: no_workspace_root_def)

lemma handleWorkspaceContains_any:
  "dispatched (snd (handleWorkspaceContainsEagerPlugins act ex pj ws descs fx))
     = dispatched fx @ workspace_events ex pj ws descs
   \<and> console_errors (snd (handleWorkspaceContainsEagerPlugins act ex pj ws descs fx))
     = console_errors fx @ List.map_filter act (workspace_events ex pj ws descs)
   \<and> fst (handleWorkspaceContainsEagerPlugins act ex pj ws descs fx) = Inr ()"
proof (cases ws rule: root_cases)
  case 1
  then have "workspace_events ex pj ws descs = []"
    by (simp add: workspace_events_def no_workspace_root_def split: option.splits)
  with 1 show ?thesis
    by (simp add: handleWorkspaceContains_rootless map_filter_simps)
next
  case (2 w r)
  then have "workspace_events ex pj ws descs
               = map ((@) workspaceContains) (existing ex pj (fsPath r) descs)"
    by (simp add: workspace_events_def)
  with 2 show ?thesis
    by (simp add: handleWorkspaceContains_effects)
qed

lemma handleEagerPlugins_any:
  "dispatched (snd (handleEagerPlugins act ex pj ws descs no_effects))
     = ''*'' # workspace_events ex pj ws descs
   \<and> console_errors (snd (handleEagerPlugins act ex pj ws descs no_effects))
     = List.map_filter act (''*'' # workspace_events ex pj ws descs)
   \<and> fst (handleEagerPlugins act ex pj ws descs no_effects) = Inr ()"
proof -
  let ?fx = "activate_and_log act ''*'' no_effects"
  have d: "dispatched ?fx = [''*'']"
    by (simp add: activate_and_log_fields no_effects_def)
  have c: "console_errors ?fx = List.map_filter act [''*'']"
    by (simp add: activate_and_log_fields no_effects_def)
  have "List.map_filter act (''*'' # workspace_events ex pj ws descs)
          = List.map_filter act [''*''] @ List.map_filter act (workspace_events ex pj ws descs)"
    using map_filter_append [of act "[''*'']" "workspace_events ex pj ws descs"] by simp
  then show ?thesis
    unfolding handleEagerPlugins_def
    using handleWorkspaceContains_any [of act ex pj ws descs ?fx]
    by (simp only: d c append_Cons append_Nil simp_thms)
qed

lemma inj_workspaceContains: "inj ((@) workspaceContains)"
  by (simp add: inj_on_def)

lemmas resolver_eval =
  handleEagerPlugins_def handleWorkspaceContainsEagerPlugins_def desiredFiles_def
  collect_desc_def collect_event_def dispatch_existing_def activate_and_log_def
  fileExistsWithResult_def object_keys_def array_index_def is_digit_def obj_set_def
  workspaceContains_def no_effects_def Let_def

lemma count_list_distinct:
  "distinct xs \<Longrightarrow> count_list xs x = (if x \<in> set xs then 1 else 0)"
  by (induction xs) auto

lemma count_list_map_inj:
  assumes "distinct xs" and "inj f"
  shows "count_list (map f xs) (f x) = (if x \<in> set xs then 1 else 0)"
proof -
  have "distinct (map f xs)"
    using assms by (simp add: distinct_map inj_on_def inj_def)
  moreover have "f x \<in> set (map f xs) \<longleftrightarrow> x \<in> set xs"
    using assms(2) by (auto simp: inj_def)
  ultimately show ?thesis
    by (simp only: count_list_distinct)
qed

lemma declared_key: "n \<noteq> k \<Longrightarrow> n \<in> {n. P n \<and> n \<noteq> k} \<longleftrightarrow> P n"
  by simp




text \<open>
  C6 (trigger dispatch), as amended. With a workspace root, for every name \<open>n\<close> other than
  \<^verbatim>\<open>__proto__\<close> the event \<^verbatim>\<open>workspaceContains:<n>\<close> is dispatched by the workspace phase if and
  only if some descriptor declares \<open>n\<close>, \<open>n\<close> is not empty and the probe of
  \<^verbatim>\<open>paths.join(root, n)\<close> succeeded, and then it is dispatched once. A name whose probe failed
  is never dispatched, and neither is the empty name; every event of the workspace phase
  belongs to a declared, non-empty name whose probe succeeded.
\<close>

theorem dispatch_nonempty_existing:
  assumes "resource w = Some r" and "n \<noteq> ''__proto__''"
  shows "count_list
           (dispatched (snd (handleWorkspaceContainsEagerPlugins act ex pj (Some w) descs no_effects)))
           (workspaceContains @ n)
           = (if declares descs n \<and> n \<noteq> [] \<and> ex (pj (fsPath r) n) then 1 else 0)
         \<and> set (dispatched (snd (handleWorkspaceContainsEagerPlugins act ex pj (Some w) descs no_effects)))
           \<subseteq> (@) workspaceContains ` {n. declares descs n \<and> n \<noteq> [] \<and> ex (pj (fsPath r) n)}"
proof -
  let ?R = "handleWorkspaceContainsEagerPlugins act ex pj (Some w) descs no_effects"
  let ?names = "existing ex pj (fsPath r) descs"
  have d: "dispatched (snd ?R) = map ((@) workspaceContains) ?names"
    by (simp add: handleWorkspaceContains_effects [OF assms(1)] no_effects_def)
  have "n \<in> set (desiredFiles descs) \<longleftrightarrow> declares descs n"
    unfolding set_desiredFiles using assms(2) by (rule declared_key)
  then have m: "n \<in> set ?names \<longleftrightarrow> declares descs n \<and> n \<noteq> [] \<and> ex (pj (fsPath r) n)"
    by (auto simp: existing_def)
  have "distinct ?names"
    by (simp add: existing_def distinct_desiredFiles)
  then have "count_list (map ((@) workspaceContains) ?names) (workspaceContains @ n)
               = (if n \<in> set ?names then 1 else 0)"
    using inj_workspaceContains by (rule count_list_map_inj)
  then have c: "count_list (dispatched (snd ?R)) (workspaceContains @ n)
               = (if declares descs n \<and> n \<noteq> [] \<and> ex (pj (fsPath r) n) then 1 else 0)"
    by (simp only: d m)
  have "set ?names \<subseteq> {n. declares descs n \<and> n \<noteq> [] \<and> ex (pj (fsPath r) n)}"
    by (auto simp: existing_def set_desiredFiles)
  then have "set (dispatched (snd ?R))
               \<subseteq> (@) workspaceContains ` {n. declares descs n \<and> n \<noteq> [] \<and> ex (pj (fsPath r) n)}"
    unfolding d by auto
  with c show ?thesis by (rule conjI)
qed

theorem dispatch_nonempty_existing_witness:
  "resource ws_root = Some \<lparr>fsPath = ''/ws''\<rparr> \<and> ''pkg.json'' \<noteq> ''__proto__''
   \<and> declares [pkg_json, pkg_json2] ''pkg.json''
   \<and> count_list (dispatched (snd (handleWorkspaceContainsEagerPlugins (\<lambda>ev. None)
                     (\<lambda>path. path = ''/ws/pkg.json'') slash_join
                     (Some ws_root) [pkg_json, pkg_json2] no_effects)))
         (workspaceContains @ ''pkg.json'') = 1
   \<and> dispatched (snd (handleWorkspaceContainsEagerPlugins (\<lambda>ev. None)
                     (\<lambda>path. path = ''/ws/pkg.json'') slash_join
                     (Some ws_root) [pkg_json, pkg_json2] no_effects))
       = [''workspaceContains:pkg.json'']"
proof -
  have r: "resource ws_root = Some \<lparr>fsPath = ''/ws''\<rparr>"
    by (simp add: ws_root_def)
  have n: "''pkg.json'' \<noteq> ''__proto__''"
    by simp
  have d: "declares [pkg_json, pkg_json2] ''pkg.json''"
    by (simp add: declares_def pkg_json_def workspaceContains_def)
  have "dispatched (snd (handleWorkspaceContainsEagerPlugins (\<lambda>ev. None)
                     (\<lambda>path. path = ''/ws/pkg.json'') slash_join
                     (Some ws_root) [pkg_json, pkg_json2] no_effects))
       = [''workspaceContains:pkg.json'']"
    by (simp add: resolver_eval ws_root_def pkg_json_def pkg_json2_def slash_join_def)
  with r n d dispatch_nonempty_existing [OF r n, of "\<lambda>ev. None" "\<lambda>path. path = ''/ws/pkg.json''"
                                      slash_join "[pkg_json, pkg_json2]"]
  show ?thesis by (simp add: slash_join_def workspaceContains_def)
qed

text \<open>
  C6 as stated fails: with every path existing and descriptors declaring
  \<^verbatim>\<open>workspaceContains:\<close> and \<^verbatim>\<open>workspaceContains:pkg.json\<close>, both names are probed and both
  probes succeed, and only \<^verbatim>\<open>workspaceContains:pkg.json\<close> is dispatched. A declared name
  \<^verbatim>\<open>__proto__\<close> is not dispatched either.
\<close>

theorem dispatch_iff_probe_counterexample:
  "probes (snd (handleWorkspaceContainsEagerPlugins (\<lambda>ev. None) (\<lambda>path. True) slash_join
                 (Some ws_root) [empty_name, pkg_json] no_effects))
     = [(''/ws'', []), (''/ws/pkg.json'', ''pkg.json'')]
   \<and> dispatched (snd (handleWorkspaceContainsEagerPlugins (\<lambda>ev. None) (\<lambda>path. True) slash_join
                 (Some ws_root) [empty_name, pkg_json] no_effects))
     = [''workspaceContains:pkg.json'']
   \<and> dispatched (snd (handleWorkspaceContainsEagerPlugins (\<lambda>ev. None) (\<lambda>path. True) slash_join
                 (Some ws_root) [proto_name] no_effects))
     = []"
  by (simp add: resolver_eval ws_root_def pkg_json_def empty_name_def proto_name_def
                slash_join_def)

text \<open>
  C7 (empty name), as amended. With a workspace root, a declared event \<^verbatim>\<open>workspaceContains:\<close>
  with nothing after the colon is probed once, at \<^verbatim>\<open>paths.join(root, "")\<close>, and the event
  \<^verbatim>\<open>workspaceContains:\<close> is not dispatched, whatever the probe answers: the result handed on by
  a successful probe is the empty name, which the \<^verbatim>\<open>!existingFileName\<close> guard skips.
\<close>

theorem empty_name_probed_not_dispatched:
  assumes "resource w = Some r" and "declares descs []"
  shows "count_list (probes (snd (handleEagerPlugins act ex pj (Some w) descs no_effects)))
           (pj (fsPath r) [], []) = 1
         \<and> workspaceContains \<notin> set (dispatched (snd (handleEagerPlugins act ex pj (Some w) descs no_effects)))"
proof -
  let ?names = "desiredFiles descs"
  have p: "probes (snd (handleEagerPlugins act ex pj (Some w) descs no_effects))
             = map (\<lambda>n. (pj (fsPath r) n, n)) ?names"
    by (simp add: handleEagerPlugins_def handleWorkspaceContains_effects [OF assms(1)]
                  activate_and_log_fields no_effects_def)
  have "distinct (map (\<lambda>n. (pj (fsPath r) n, n)) ?names)"
    by (simp add: distinct_map distinct_desiredFiles inj_on_def)
  moreover have "(pj (fsPath r) [], []) \<in> set (map (\<lambda>n. (pj (fsPath r) n, n)) ?names)"
    using assms(2) by (simp add: set_desiredFiles)
  ultimately have c: "count_list (map (\<lambda>n. (pj (fsPath r) n, n)) ?names) (pj (fsPath r) [], []) = 1"
    by (simp add: count_list_distinct)
  have "workspaceContains \<notin> set (workspace_events ex pj (Some w) descs)"
    using assms(1) by (auto simp: workspace_events_def existing_def)
  moreover have "workspaceContains \<noteq> ''*''"
    by (simp add: workspaceContains_def)
  ultimately have "workspaceContains \<notin> set (''*'' # workspace_events ex pj (Some w) descs)"
    by simp
  then show ?thesis
    using c by (simp only: p handleEagerPlugins_any simp_thms)
qed

theorem empty_name_probed_not_dispatched_witness:
  "resource ws_root = Some \<lparr>fsPath = ''/ws''\<rparr> \<and> declares [pkg_json, empty_name] []
   \<and> count_list (probes (snd (handleEagerPlugins (\<lambda>ev. None) (\<lambda>path. True) slash_join
                  (Some ws_root) [pkg_json, empty_name] no_effects))) (''/ws'', []) = 1
   \<and> ''workspaceContains:'' \<notin> set (dispatched (snd (handleEagerPlugins (\<lambda>ev. None) (\<lambda>path. True) slash_join
                  (Some ws_root) [pkg_json, empty_name] no_effects)))"
proof -
  have r: "resource ws_root = Some \<lparr>fsPath = ''/ws''\<rparr>"
    by (simp add: ws_root_def)
  have d: "declares [pkg_json, empty_name] []"
    by (simp add: declares_def empty_name_def workspaceContains_def)
  show ?thesis
    using r d empty_name_probed_not_dispatched [OF r d, of "\<lambda>ev. None" "\<lambda>path. True" slash_join]
    by (simp add: slash_join_def workspaceContains_def)
qed

text \<open>
  C7 as stated fails: the probe of the empty name is made at the workspace root, which
  exists, and the universal event is the only event dispatched.
\<close>

theorem empty_name_counterexample:
  "slash_join ''/ws'' [] = ''/ws''
   \<and> probes (snd (handleEagerPlugins (\<lambda>ev. None) (\<lambda>path. True) slash_join
                 (Some ws_root) [empty_name] no_effects)) = [(''/ws'', [])]
   \<and> dispatched (snd (handleEagerPlugins (\<lambda>ev. None) (\<lambda>path. True) slash_join
                 (Some ws_root) [empty_name] no_effects)) = [''*'']"
  by (simp add: resolver_eval ws_root_def empty_name_def slash_join_def)

text \<open>
  C8 (no workspace). Without a workspace, or with a workspace that has no resource, the
  universal event \<^verbatim>\<open>*\<close> is the only event dispatched and no existence probe is made.
\<close>

theorem no_workspace_no_probes:
  assumes "no_workspace_root ws"
  shows "dispatched (snd (handleEagerPlugins act ex pj ws descs no_effects)) = [''*'']
         \<and> probes (snd (handleEagerPlugins act ex pj ws descs no_effects)) = []"
  by (simp add: handleEagerPlugins_def handleWorkspaceContains_rootless [OF assms]
                activate_and_log_fields no_effects_def)

theorem no_workspace_no_probes_witness:
  "no_workspace_root None \<and> no_workspace_root (Some \<lparr>resource = None\<rparr>)
   \<and> dispatched (snd (handleEagerPlugins (\<lambda>ev. None) (\<lambda>path. True) slash_join None
                      [pkg_json] no_effects)) = [''*'']
   \<and> probes (snd (handleEagerPlugins (\<lambda>ev. None) (\<lambda>path. True) slash_join None
                      [pkg_json] no_effects)) = []
   \<and> dispatched (snd (handleEagerPlugins (\<lambda>ev. None) (\<lambda>path. True) slash_join
                      (Some \<lparr>resource = None\<rparr>) [pkg_json] no_effects)) = [''*'']
   \<and> probes (snd (handleEagerPlugins (\<lambda>ev. None) (\<lambda>path. True) slash_join
                      (Some \<lparr>resource = None\<rparr>) [pkg_json] no_effects)) = []"
proof -
  have a: "no_workspace_root None"
    by (simp add: no_workspace_root_def)
  have b: "no_workspace_root (Some \<lparr>resource = None\<rparr>)"
    by (simp add: no_workspace_root_def)
  show ?thesis
    using a b
      no_workspace_no_probes [OF a, of "\<lambda>ev. None" "\<lambda>path. True" slash_join "[pkg_json]"]
      no_workspace_no_probes [OF b, of "\<lambda>ev. None" "\<lambda>path. True" slash_join "[pkg_json]"]
    by simp
qed

section \<open>Properties of the startup\<close>

lemma handleEagerPlugins_pair:
  "handleEagerPlugins act ex pj ws descs no_effects
     = (Inr (), snd (handleEagerPlugins act ex pj ws descs no_effects))"
  by (metis handleEagerPlugins_any prod.collapse)

lemma readPlugins_rejected:
  assumes "scanPlugins msgs bs us ds (userPluginsHome env) (pluginDevelopmentPath env) = (Inl err, c)"
  shows "readPlugins env msgs bs us ds act ex pj ws testRun =
           \<lparr>registered = [],
            registrationDone = collector_error [] err c,
            effects = snd (handleEagerPlugins act ex pj ws [] no_effects),
            settled = handlePluginTests env testRun\<rparr>"
  unfolding readPlugins_def assms
  by (subst handleEagerPlugins_pair)
     (simp add: registerPlugins_def getAllPluginDescriptions_def)

lemma readPlugins_fulfilled:
  assumes "scanPlugins msgs bs us ds (userPluginsHome env) (pluginDevelopmentPath env) = (Inr plugins, c)"
  shows "readPlugins env msgs bs us ds act ex pj ws testRun =
           \<lparr>registered = plugins,
            registrationDone = c,
            effects = snd (handleEagerPlugins act ex pj ws plugins no_effects),
            settled = handlePluginTests env testRun\<rparr>"
  unfolding readPlugins_def assms
  by (subst handleEagerPlugins_pair)
     (simp add: registerPlugins_def getAllPluginDescriptions_def)

lemma readPlugins_fields:
  "settled (readPlugins env msgs bs us ds act ex pj ws testRun) = handlePluginTests env testRun
   \<and> effects (readPlugins env msgs bs us ds act ex pj ws testRun)
       = snd (handleEagerPlugins act ex pj ws
                (registered (readPlugins env msgs bs us ds act ex pj ws testRun)) no_effects)"
proof -
  obtain scanned c where
    sp: "scanPlugins msgs bs us ds (userPluginsHome env) (pluginDevelopmentPath env) = (scanned, c)"
    by (cases "scanPlugins msgs bs us ds (userPluginsHome env) (pluginDevelopmentPath env)")
  show ?thesis
  proof (cases scanned)
    case (Inl err)
    with sp show ?thesis by (simp add: readPlugins_rejected)
  next
    case (Inr plugins)
    with sp show ?thesis by (simp add: readPlugins_fulfilled)
  qed
qed

text \<open>
  C9 (isolation). Whichever dispatches are rejected, the events dispatched are those
  dispatched when none is rejected; the rejections, the one of \<^verbatim>\<open>*\<close> included, are written
  to the console; the promise of \<^verbatim>\<open>handleEagerPlugins\<close> is fulfilled; and how the startup
  settles does not depend on the activations.
\<close>

theorem activation_isolation:
  "dispatched (snd (handleEagerPlugins act ex pj ws descs no_effects))
     = dispatched (snd (handleEagerPlugins (\<lambda>ev. None) ex pj ws descs no_effects))
   \<and> console_errors (snd (handleEagerPlugins act ex pj ws descs no_effects))
     = List.map_filter act (dispatched (snd (handleEagerPlugins act ex pj ws descs no_effects)))
   \<and> fst (handleEagerPlugins act ex pj ws descs no_effects) = Inr ()
   \<and> settled (readPlugins env msgs bs us ds act ex pj ws testRun) = handlePluginTests env testRun"
proof -
  let ?plan = "''*'' # workspace_events ex pj ws descs"
  have with_act: "dispatched (snd (handleEagerPlugins act ex pj ws descs no_effects)) = ?plan"
    by (simp add: handleEagerPlugins_any)
  have without: "dispatched (snd (handleEagerPlugins (\<lambda>ev. None) ex pj ws descs no_effects)) = ?plan"
    by (simp add: handleEagerPlugins_any)
  have logged: "console_errors (snd (handleEagerPlugins act ex pj ws descs no_effects))
                  = List.map_filter act ?plan"
    by (simp add: handleEagerPlugins_any)
  have fulfilled: "fst (handleEagerPlugins act ex pj ws descs no_effects) = Inr ()"
    by (simp add: handleEagerPlugins_any)
  have "settled (readPlugins env msgs bs us ds act ex pj ws testRun) = handlePluginTests env testRun"
    by (simp add: readPlugins_fields)
  with with_act without logged fulfilled show ?thesis
    by (simp only: simp_thms)
qed

theorem activation_isolation_witness:
  "dispatched (snd (handleEagerPlugins star_fails (\<lambda>path. True) slash_join (Some ws_root)
                      [pkg_json] no_effects))
     = [''*'', ''workspaceContains:pkg.json'']
   \<and> console_errors (snd (handleEagerPlugins star_fails (\<lambda>path. True) slash_join (Some ws_root)
                      [pkg_json] no_effects))
     = [Reason ''activation failed'']
   \<and> fst (handleEagerPlugins star_fails (\<lambda>path. True) slash_join (Some ws_root)
                      [pkg_json] no_effects) = Inr ()
   \<and> settled (readPlugins all_paths [] (Inr [pkg_json]) (Inr []) (Inr []) star_fails
                (\<lambda>path. True) slash_join (Some ws_root) (Inr ())) = Inr ()"
proof -
  have "dispatched (snd (handleEagerPlugins (\<lambda>ev. None) (\<lambda>path. True) slash_join (Some ws_root)
                      [pkg_json] no_effects))
     = [''*'', ''workspaceContains:pkg.json'']"
    by (simp add: resolver_eval ws_root_def pkg_json_def slash_join_def)
  then show ?thesis
    using activation_isolation [of star_fails "\<lambda>path. True" slash_join "Some ws_root" "[pkg_json]"
            all_paths "[]" "Inr [pkg_json]" "Inr []" "Inr []" "Inr ()"]
    by (simp add: map_filter_simps star_fails_def handlePluginTests_def all_paths_def truthy_def)
qed

lemma join_rejected:
  "list_ex isl ps \<Longrightarrow> \<exists>err. join ps = Inl err"
  by (simp add: join_def)

text \<open>
  C1 (a scan rejects), as amended. If one of the scans that were started is rejected, the
  join is rejected as a whole: \<^verbatim>\<open>readPlugins\<close> records one error diagnostic, registers the
  empty list in place of the merged result, so that no descriptor of the other sources is
  registered either, and the startup goes on: the universal event is dispatched and the
  plugin tests decide how the startup settles.
\<close>

theorem scan_rejection_empties_registry:
  assumes "rejected True builtinScan
           \<or> rejected (truthy (userPluginsHome env)) userScan
           \<or> rejected (truthy (pluginDevelopmentPath env)) devScan"
  shows "registered (readPlugins env msgs builtinScan userScan devScan act ex pj ws testRun) = []
         \<and> (\<exists>err. registrationDone (readPlugins env msgs builtinScan userScan devScan act ex pj ws testRun)
                    = msgs @ [Message Error [] (Failure err)])
         \<and> dispatched (effects (readPlugins env msgs builtinScan userScan devScan act ex pj ws testRun))
             = [''*'']
         \<and> settled (readPlugins env msgs builtinScan userScan devScan act ex pj ws testRun)
             = handlePluginTests env testRun"
proof -
  let ?u = "if truthy (userPluginsHome env) then userScan else Inr []"
  let ?d = "if truthy (pluginDevelopmentPath env) then devScan else Inr []"
  have "list_ex isl [builtinScan, ?u, ?d]"
    using assms by (auto simp: rejected_def)
  then obtain err where "join [builtinScan, ?u, ?d] = Inl err"
    using join_rejected by blast
  then have "scanPlugins msgs builtinScan userScan devScan (userPluginsHome env)
               (pluginDevelopmentPath env) = (Inl err, msgs)"
    by (simp add: scanPlugins_def)
  then have r: "readPlugins env msgs builtinScan userScan devScan act ex pj ws testRun =
           \<lparr>registered = [],
            registrationDone = collector_error [] err msgs,
            effects = snd (handleEagerPlugins act ex pj ws [] no_effects),
            settled = handlePluginTests env testRun\<rparr>"
    by (rule readPlugins_rejected)
  have "desiredFiles [] = []"
    by (simp add: desiredFiles_def object_keys_def)
  then have "workspace_events ex pj ws [] = []"
    by (simp add: workspace_events_def existing_def split: option.splits)
  then have "dispatched (snd (handleEagerPlugins act ex pj ws [] no_effects)) = [''*'']"
    by (simp add: handleEagerPlugins_any)
  then show ?thesis
    by (simp add: r collector_error_def)
qed

theorem scan_rejection_empties_registry_witness:
  "rejected (truthy (userPluginsHome all_paths)) (Inl (Reason ''EACCES'') :: (IPluginDescription list) outcome)
   \<and> registered (readPlugins all_paths [] (Inr [builtin_A]) (Inl (Reason ''EACCES'')) (Inr [dev_A])
                   (\<lambda>ev. None) (\<lambda>path. True) slash_join (Some ws_root) (Inr ())) = []
   \<and> dispatched (effects (readPlugins all_paths [] (Inr [builtin_A]) (Inl (Reason ''EACCES''))
                   (Inr [dev_A]) (\<lambda>ev. None) (\<lambda>path. True) slash_join (Some ws_root) (Inr ())))
       = [''*'']
   \<and> settled (readPlugins all_paths [] (Inr [builtin_A]) (Inl (Reason ''EACCES'')) (Inr [dev_A])
                   (\<lambda>ev. None) (\<lambda>path. True) slash_join (Some ws_root) (Inr ())) = Inr ()"
proof -
  have h: "rejected (truthy (userPluginsHome all_paths))
             (Inl (Reason ''EACCES'') :: (IPluginDescription list) outcome)"
    by (simp add: rejected_def truthy_def all_paths_def)
  then have "rejected True (Inr [builtin_A])
           \<or> rejected (truthy (userPluginsHome all_paths))
                (Inl (Reason ''EACCES'') :: (IPluginDescription list) outcome)
           \<or> rejected (truthy (pluginDevelopmentPath all_paths)) (Inr [dev_A])"
    by simp
  from scan_rejection_empties_registry [OF this, of "[]" "\<lambda>ev. None" "\<lambda>path. True" slash_join
         "Some ws_root" "Inr ()"] h
  show ?thesis
    by (simp add: handlePluginTests_def all_paths_def truthy_def)
qed

lemmas startup_eval =
  readPlugins_def scanPlugins_def join_def truthy_def collector_error_def
  registerPlugins_def getAllPluginDescriptions_def handlePluginTests_def map_filter_simps

text \<open>
  C1 as stated fails: when the builtin scan yields a descriptor and the user scan is
  rejected, nothing is registered and the only diagnostic is the error of the join.
\<close>

theorem scan_rejection_counterexample:
  "registered (readPlugins all_paths [] (Inr [builtin_A]) (Inl (Reason ''EACCES'')) (Inr [])
                 (\<lambda>ev. None) (\<lambda>path. True) slash_join (Some ws_root) (Inr ())) = []
   \<and> registrationDone (readPlugins all_paths [] (Inr [builtin_A]) (Inl (Reason ''EACCES'')) (Inr [])
                 (\<lambda>ev. None) (\<lambda>path. True) slash_join (Some ws_root) (Inr ()))
       = [Message Error [] (Failure (Joined [None, Some (Reason ''EACCES''), None]))]"
  by (simp add: startup_eval resolver_eval all_paths_def ws_root_def)

section \<open>Properties of the guard on \<^verbatim>\<open>process.exit\<close>\<close>

lemma call_exit_slot: "process_exit (call_exit f code p) = process_exit p"
  by (simp add: call_exit_def split: exit_function.splits)

lemma run_call_slot: "process_exit (run_call m c p) = process_exit p"
  by (cases c) (simp_all add: exit_def call_exit_slot)

lemma run_call_exited:
  assumes "process_exit p = PatchedExit" and "nativeExit m = NativeExit"
  shows "(exited (run_call m c p) \<noteq> None) = (exited p \<noteq> None \<or> (\<exists>code. c = ExportedExit code))"
  using assms by (cases c) (auto simp: exit_def call_exit_def)

lemma fold_run_call_exited:
  assumes "process_exit p = PatchedExit" and "nativeExit m = NativeExit"
  shows "(exited (fold (run_call m) calls p) \<noteq> None)
           = (exited p \<noteq> None \<or> (\<exists>code. ExportedExit code \<in> set calls))"
  using assms
proof (induction calls arbitrary: p)
  case Nil
  show ?case by simp
next
  case (Cons c calls)
  have "process_exit (run_call m c p) = PatchedExit"
    using Cons.prems(1) by (simp add: run_call_slot)
  then have "(exited (fold (run_call m) calls (run_call m c p)) \<noteq> None)
           = (exited (run_call m c p) \<noteq> None \<or> (\<exists>code. ExportedExit code \<in> set calls))"
    using Cons.prems(2) by (rule Cons.IH)
  then show ?case
    using run_call_exited [OF Cons.prems, of c] by auto
qed

text \<open>
  C10 (the guard on \<^verbatim>\<open>process.exit\<close>). After the module is loaded into a running process whose
  \<^verbatim>\<open>process.exit\<close> is the native one, a call of \<^verbatim>\<open>process.exit\<close> with any argument leaves the
  process running and appends the stack of the error to the console warnings; after any
  sequence of calls of \<^verbatim>\<open>process.exit\<close> and of the exported \<^verbatim>\<open>exit\<close>, the process has exited if
  and only if the exported \<^verbatim>\<open>exit\<close> was called; and the exported \<^verbatim>\<open>exit(code)\<close> ends the
  process with that code.
\<close>

theorem process_exit_guarded:
  assumes "process_exit p0 = NativeExit" and "exited p0 = None"
  shows "exited (run_call (fst (load_module p0)) (ProcessExit code) (snd (load_module p0))) = None
   \<and> console_warnings (run_call (fst (load_module p0)) (ProcessExit code) (snd (load_module p0)))
       = console_warnings p0 @ [Stack prevented]
   \<and> (exited (fold (run_call (fst (load_module p0))) calls (snd (load_module p0))) \<noteq> None)
       = (\<exists>c. ExportedExit c \<in> set calls)
   \<and> exited (exit (fst (load_module p0)) code (snd (load_module p0))) = Some code"
proof -
  let ?m = "fst (load_module p0)" and ?p = "snd (load_module p0)"
  have slot: "process_exit ?p = PatchedExit" and native: "nativeExit ?m = NativeExit"
    and alive: "exited ?p = None"
    using assms by (simp_all add: load_module_def)
  have "(exited (fold (run_call ?m) calls ?p) \<noteq> None) = (\<exists>c. ExportedExit c \<in> set calls)"
    using fold_run_call_exited [OF slot native, of calls] alive by simp
  moreover have "exited (run_call ?m (ProcessExit code) ?p) = None"
    using slot alive by (simp add: call_exit_def)
  moreover have "console_warnings (run_call ?m (ProcessExit code) ?p)
                   = console_warnings p0 @ [Stack prevented]"
    using slot alive by (simp add: call_exit_def) (simp add: load_module_def)
  moreover have "exited (exit ?m code ?p) = Some code"
    using native alive by (simp add: exit_def call_exit_def)
  ultimately show ?thesis by blast
qed

theorem process_exit_guarded_witness:
  "process_exit fresh_process = NativeExit \<and> exited fresh_process = None
   \<and> exited (run_call (fst (load_module fresh_process)) (ProcessExit (Some 1))
               (snd (load_module fresh_process))) = None
   \<and> console_warnings (run_call (fst (load_module fresh_process)) (ProcessExit (Some 1))
               (snd (load_module fresh_process)))
       = [Stack ''An extension called process.exit() and this was prevented.'']
   \<and> exited (fold (run_call (fst (load_module fresh_process)))
               [ProcessExit (Some 1), ProcessExit None] (snd (load_module fresh_process))) = None
   \<and> exited (exit (fst (load_module fresh_process)) (Some 1) (snd (load_module fresh_process)))
       = Some (Some 1)"
proof -
  have a: "process_exit fresh_process = NativeExit" and b: "exited fresh_process = None"
    by (simp_all add: fresh_process_def)
  show ?thesis
    using a b process_exit_guarded [OF a b, of "Some 1" "[ProcessExit (Some 1), ProcessExit None]"]
    by (simp add: prevented_def) (simp add: fresh_process_def)
qed

end
